theory Spec2Isabelle
  imports Main "HOL-Library.Sublist"
begin

section \<open>Data model (models.py)\<close>

text \<open>
  The three dataclasses of \<^verbatim>\<open>models.py\<close>, with the field types they declare
  (\<^verbatim>\<open>str\<close>, \<^verbatim>\<open>int\<close>, \<^verbatim>\<open>Optional[str]\<close>, \<^verbatim>\<open>List[IncidentUpdate]\<close>).
  The three classes share the field names \<^verbatim>\<open>id\<close>, \<^verbatim>\<open>name\<close>, \<^verbatim>\<open>status\<close>, ...;
  a record field is a constant of the theory, so each field carries the prefix of its class
  (\<^verbatim>\<open>comp_\<close>, \<^verbatim>\<open>upd_\<close>, \<^verbatim>\<open>inc_\<close>).
\<close>

record ComponentStatus =
  comp_id :: string
  comp_name :: string
  comp_status :: string
  comp_updated_at :: string
  comp_position :: int

record IncidentUpdate =
  upd_id :: string
  upd_body :: string
  upd_created_at :: string
  upd_display_at :: string
  upd_status :: string
  upd_incident_id :: string

record Incident =
  inc_id :: string
  inc_name :: string
  inc_status :: string
  inc_created_at :: string
  inc_updated_at :: string
  inc_resolved_at :: "string option"
  inc_impact :: string
  inc_updates :: "IncidentUpdate list"

section \<open>Decoded JSON and the Python operations the parsers apply to it\<close>

text \<open>
  What \<^verbatim>\<open>response.json()\<close> returns: \<^verbatim>\<open>None\<close>, a bool, an int, a str, a list or a
  dict with string keys. A dict is the list of its items, one per key, in insertion order.
  Numbers with a fraction or an exponent (Python floats) are not represented: no field
  the monitor reads is one.
\<close>

datatype json =
    JNull
  | JBool bool
  | JNum int
  | JStr string
  | JArr "json list"
  | JObj "(string \<times> json) list"

text \<open>Python's truth value of a decoded payload (\<^verbatim>\<open>if summary_data:\<close>).\<close>

fun truthy :: "json \<Rightarrow> bool" where
  "truthy JNull = False"
| "truthy (JBool b) = b"
| "truthy (JNum n) = (n \<noteq> 0)"
| "truthy (JStr s) = (s \<noteq> [])"
| "truthy (JArr xs) = (xs \<noteq> [])"
| "truthy (JObj kvs) = (kvs \<noteq> [])"

text \<open>
  The exceptions the parsers can raise on a decoded payload. \<open>Untyped k\<close> is not a Python
  exception: it marks a record whose field \<open>k\<close> is present with a JSON value that is not
  of the type the dataclass declares. Python stores such a value unchecked; the typed
  records above cannot hold it, so the model of the parser stops there. Every lookup of a
  record is made before its values are typed, so a \<open>KeyError\<close>, \<open>TypeError\<close> or
  \<open>AttributeError\<close> of the model is the exception Python raises.
\<close>

datatype error =
    KeyError string
  | TypeError
  | AttributeError
  | Untyped string

definition and_then :: "error + 'a \<Rightarrow> ('a \<Rightarrow> error + 'b) \<Rightarrow> error + 'b" where
  "and_then r f = (case r of Inl e \<Rightarrow> Inl e | Inr x \<Rightarrow> f x)"

text \<open>\<^verbatim>\<open>d.get(k, default)\<close>: only a dict has the method.\<close>

fun dict_get :: "json \<Rightarrow> string \<Rightarrow> json \<Rightarrow> error + json" where
  "dict_get (JObj kvs) k d = Inr (case map_of kvs k of None \<Rightarrow> d | Some v \<Rightarrow> v)"
| "dict_get JNull k d = Inl AttributeError"
| "dict_get (JBool b) k d = Inl AttributeError"
| "dict_get (JNum n) k d = Inl AttributeError"
| "dict_get (JStr s) k d = Inl AttributeError"
| "dict_get (JArr xs) k d = Inl AttributeError"

text \<open>\<^verbatim>\<open>d[k]\<close> with a string key: \<^verbatim>\<open>KeyError\<close> on a dict without the key,
  \<^verbatim>\<open>TypeError\<close> on every other value.\<close>

fun subscript :: "json \<Rightarrow> string \<Rightarrow> error + json" where
  "subscript (JObj kvs) k = (case map_of kvs k of None \<Rightarrow> Inl (KeyError k) | Some v \<Rightarrow> Inr v)"
| "subscript JNull k = Inl TypeError"
| "subscript (JBool b) k = Inl TypeError"
| "subscript (JNum n) k = Inl TypeError"
| "subscript (JStr s) k = Inl TypeError"
| "subscript (JArr xs) k = Inl TypeError"

text \<open>\<^verbatim>\<open>for x in v\<close>: a list gives its elements, a dict its keys, a str its
  characters; \<^verbatim>\<open>None\<close>, a bool and an int are not iterable.\<close>

fun iterate :: "json \<Rightarrow> error + json list" where
  "iterate (JArr xs) = Inr xs"
| "iterate (JObj kvs) = Inr (map (\<lambda>kv. JStr (fst kv)) kvs)"
| "iterate (JStr s) = Inr (map (\<lambda>c. JStr [c]) s)"
| "iterate JNull = Inl TypeError"
| "iterate (JBool b) = Inl TypeError"
| "iterate (JNum n) = Inl TypeError"

text \<open>The typed view of a field value.\<close>

fun as_str :: "string \<Rightarrow> json \<Rightarrow> error + string" where
  "as_str k (JStr s) = Inr s"
| "as_str k v = Inl (Untyped k)"

fun as_int :: "string \<Rightarrow> json \<Rightarrow> error + int" where
  "as_int k (JNum n) = Inr n"
| "as_int k v = Inl (Untyped k)"

fun as_opt_str :: "string \<Rightarrow> json \<Rightarrow> error + string option" where
  "as_opt_str k JNull = Inr None"
| "as_opt_str k (JStr s) = Inr (Some s)"
| "as_opt_str k v = Inl (Untyped k)"

text \<open>A loop that appends one parsed record per element and stops at the first raise.\<close>

fun parse_each :: "('a \<Rightarrow> error + 'b) \<Rightarrow> 'a list \<Rightarrow> error + 'b list" where
  "parse_each f [] = Inr []"
| "parse_each f (x # xs) =
     (case f x of
        Inl e \<Rightarrow> Inl e
      | Inr y \<Rightarrow> (case parse_each f xs of Inl e \<Rightarrow> Inl e | Inr ys \<Rightarrow> Inr (y # ys)))"

section \<open>The parsers (monitor.py, \<^verbatim>\<open>_parse_components\<close> and \<^verbatim>\<open>_parse_incidents\<close>)\<close>

text \<open>The body of the loop of \<^verbatim>\<open>_parse_components\<close>: the five subscripts in the order of
  the keyword arguments, then the record.\<close>

definition parse_component :: "json \<Rightarrow> error + ComponentStatus" where
  "parse_component comp_data =
     and_then (subscript comp_data ''id'') (\<lambda>v_id.
     and_then (subscript comp_data ''name'') (\<lambda>v_name.
     and_then (subscript comp_data ''status'') (\<lambda>v_status.
     and_then (subscript comp_data ''updated_at'') (\<lambda>v_updated_at.
     and_then (subscript comp_data ''position'') (\<lambda>v_position.
     and_then (as_str ''id'' v_id) (\<lambda>i.
     and_then (as_str ''name'' v_name) (\<lambda>n.
     and_then (as_str ''status'' v_status) (\<lambda>s.
     and_then (as_str ''updated_at'' v_updated_at) (\<lambda>u.
     and_then (as_int ''position'' v_position) (\<lambda>p.
       Inr \<lparr>comp_id = i, comp_name = n, comp_status = s,
            comp_updated_at = u, comp_position = p\<rparr>))))))))))"

definition parse_components :: "json \<Rightarrow> error + ComponentStatus list" where
  "parse_components data =
     and_then (dict_get data ''components'' (JArr [])) (\<lambda>cs.
     and_then (iterate cs) (parse_each parse_component))"

definition parse_update :: "json \<Rightarrow> error + IncidentUpdate" where
  "parse_update update_data =
     and_then (subscript update_data ''id'') (\<lambda>v_id.
     and_then (subscript update_data ''body'') (\<lambda>v_body.
     and_then (subscript update_data ''created_at'') (\<lambda>v_created_at.
     and_then (subscript update_data ''display_at'') (\<lambda>v_display_at.
     and_then (subscript update_data ''status'') (\<lambda>v_status.
     and_then (subscript update_data ''incident_id'') (\<lambda>v_incident_id.
     and_then (as_str ''id'' v_id) (\<lambda>i.
     and_then (as_str ''body'' v_body) (\<lambda>b.
     and_then (as_str ''created_at'' v_created_at) (\<lambda>c.
     and_then (as_str ''display_at'' v_display_at) (\<lambda>d.
     and_then (as_str ''status'' v_status) (\<lambda>s.
     and_then (as_str ''incident_id'' v_incident_id) (\<lambda>n.
       Inr \<lparr>upd_id = i, upd_body = b, upd_created_at = c, upd_display_at = d,
            upd_status = s, upd_incident_id = n\<rparr>))))))))))))"

text \<open>The body of the outer loop of \<^verbatim>\<open>_parse_incidents\<close>: the updates are parsed first,
  then the incident's own fields; \<^verbatim>\<open>resolved_at\<close> is read with \<^verbatim>\<open>get\<close> and may be
  absent.\<close>

definition parse_incident :: "json \<Rightarrow> error + Incident" where
  "parse_incident inc_data =
     and_then (dict_get inc_data ''incident_updates'' (JArr [])) (\<lambda>us.
     and_then (iterate us) (\<lambda>update_datas.
     and_then (parse_each parse_update update_datas) (\<lambda>updates.
     and_then (subscript inc_data ''id'') (\<lambda>v_id.
     and_then (subscript inc_data ''name'') (\<lambda>v_name.
     and_then (subscript inc_data ''status'') (\<lambda>v_status.
     and_then (subscript inc_data ''created_at'') (\<lambda>v_created_at.
     and_then (subscript inc_data ''updated_at'') (\<lambda>v_updated_at.
     and_then (dict_get inc_data ''resolved_at'' JNull) (\<lambda>v_resolved_at.
     and_then (subscript inc_data ''impact'') (\<lambda>v_impact.
     and_then (as_str ''id'' v_id) (\<lambda>i.
     and_then (as_str ''name'' v_name) (\<lambda>n.
     and_then (as_str ''status'' v_status) (\<lambda>s.
     and_then (as_str ''created_at'' v_created_at) (\<lambda>c.
     and_then (as_str ''updated_at'' v_updated_at) (\<lambda>u.
     and_then (as_opt_str ''resolved_at'' v_resolved_at) (\<lambda>r.
     and_then (as_str ''impact'' v_impact) (\<lambda>m.
       Inr \<lparr>inc_id = i, inc_name = n, inc_status = s, inc_created_at = c,
            inc_updated_at = u, inc_resolved_at = r, inc_impact = m,
            inc_updates = updates\<rparr>)))))))))))))))))"

definition parse_incidents :: "json \<Rightarrow> error + Incident list" where
  "parse_incidents data =
     and_then (dict_get data ''incidents'' (JArr [])) (\<lambda>is.
     and_then (iterate is) (parse_each parse_incident))"

section \<open>The monitor's memory and its outputs (monitor.py, \<^verbatim>\<open>OpenAIStatusMonitor\<close>)\<close>

text \<open>
  The three dictionaries of \<^verbatim>\<open>__init__\<close>: the stored validators by endpoint, the last
  signature string by state key, and the set of incident-update ids already reported.
  The poll interval, the HTTP session and the logger object are not part of the memory the
  detection reads.
\<close>

record monitor_state =
  etags :: "string \<rightharpoonup> string"
  last_known_state :: "string \<rightharpoonup> string"
  processed_incident_updates :: "string set"

definition init_state :: monitor_state where
  "init_state = \<lparr>etags = Map.empty, last_known_state = Map.empty,
                  processed_incident_updates = {}\<rparr>"

definition BASE_URL :: string where
  "BASE_URL = ''https://status.openai.com''"

definition SUMMARY_ENDPOINT :: string where
  "SUMMARY_ENDPOINT = ''/api/v2/summary.json''"

definition INCIDENTS_ENDPOINT :: string where
  "INCIDENTS_ENDPOINT = ''/api/v2/incidents.json''"

text \<open>
  An emitted event is one call of \<^verbatim>\<open>_log_component_event(component, event_type)\<close> or
  of \<^verbatim>\<open>_log_incident_event(incident, update)\<close>, with its arguments. The printed line adds
  the wall-clock time and, for an incident, the product names found in its name; neither
  is read back by the monitor.
\<close>

datatype event =
    ComponentEvent ComponentStatus string
  | IncidentEvent Incident IncidentUpdate

text \<open>The records written to the logger, by the call that writes them.\<close>

datatype log_record =
    WarningHttpStatus int string
  | ErrorNetwork string
  | ErrorJsonDecode string
  | ErrorUnexpected error

section \<open>The network as the fetcher sees it\<close>

text \<open>
  What \<^verbatim>\<open>session.get(url, headers=headers)\<close> and \<^verbatim>\<open>response.json()\<close> can do, as far as
  \<^verbatim>\<open>_fetch_with_etag\<close> tells the cases apart: the request raises
  \<^verbatim>\<open>aiohttp.ClientError\<close>, or a response arrives with a status code, an optional
  \<^verbatim>\<open>ETag\<close> header and a body that decodes to a JSON value, raises
  \<^verbatim>\<open>json.JSONDecodeError\<close>, or raises \<^verbatim>\<open>aiohttp.ClientError\<close> while it is read.
  A network is a function from the request (URL and headers) to this outcome; each poll
  cycle gets its own.
\<close>

datatype body =
    Decoded json
  | RaisesJSONDecodeError
  | RaisesClientError

datatype response = Response (resp_status: int) (resp_etag: "string option") (resp_body: body)

datatype http_outcome =
    Got response
  | ClientError

type_synonym network = "string \<Rightarrow> (string \<times> string) list \<Rightarrow> http_outcome"

section \<open>The fetcher (monitor.py, \<^verbatim>\<open>_fetch_with_etag\<close>)\<close>

text \<open>\<^verbatim>\<open>etag.strip('"')\<close>: the double quotes at both ends are removed.\<close>

definition strip_quotes :: "string \<Rightarrow> string" where
  "strip_quotes s =
     rev (dropWhile (\<lambda>c. c = CHR 0x22) (rev (dropWhile (\<lambda>c. c = CHR 0x22) s)))"

text \<open>The headers of the request: \<^verbatim>\<open>If-None-Match\<close> when a validator is stored for the
  endpoint, nothing otherwise.\<close>

definition request_headers :: "monitor_state \<Rightarrow> string \<Rightarrow> (string \<times> string) list" where
  "request_headers st endpoint =
     (case etags st endpoint of
        None \<Rightarrow> []
      | Some e \<Rightarrow> [(''If-None-Match'', e)])"

text \<open>The validator is stored when the \<^verbatim>\<open>ETag\<close> header is present and not empty
  (\<^verbatim>\<open>if etag:\<close>), before the body is decoded.\<close>

definition store_etag :: "monitor_state \<Rightarrow> string \<Rightarrow> string option \<Rightarrow> monitor_state" where
  "store_etag st endpoint etag =
     (case etag of
        None \<Rightarrow> st
      | Some e \<Rightarrow>
          if e \<noteq> [] then st\<lparr>etags := (etags st)(endpoint \<mapsto> strip_quotes e)\<rparr> else st)"

text \<open>
  The value returned, the memory afterwards and the records logged. The return type is
  \<^verbatim>\<open>Optional[dict]\<close>: Python's \<^verbatim>\<open>None\<close> is \<open>JNull\<close>, the same value a body \<^verbatim>\<open>null\<close>
  decodes to.
\<close>

definition fetch_with_etag ::
  "network \<Rightarrow> monitor_state \<Rightarrow> string \<Rightarrow> json \<times> monitor_state \<times> log_record list" where
  "fetch_with_etag net st endpoint =
     (case net (BASE_URL @ endpoint) (request_headers st endpoint) of
        ClientError \<Rightarrow> (JNull, st, [ErrorNetwork endpoint])
      | Got response \<Rightarrow>
          if resp_status response = 304 then (JNull, st, [])
          else if resp_status response = 200 then
            (let st' = store_etag st endpoint (resp_etag response) in
             case resp_body response of
               Decoded data \<Rightarrow> (data, st', [])
             | RaisesClientError \<Rightarrow> (JNull, st', [ErrorNetwork endpoint])
             | RaisesJSONDecodeError \<Rightarrow> (JNull, st', [ErrorJsonDecode endpoint]))
          else (JNull, st, [WarningHttpStatus (resp_status response) endpoint]))"

section \<open>The change detector (monitor.py, \<^verbatim>\<open>_detect_component_changes\<close> and
  \<^verbatim>\<open>_detect_incident_updates\<close>)\<close>

definition state_key :: "ComponentStatus \<Rightarrow> string" where
  "state_key component = ''component_'' @ comp_id component"

definition current_state :: "ComponentStatus \<Rightarrow> string" where
  "current_state component = comp_name component @ '':'' @ comp_status component"

text \<open>The body of the loop of \<^verbatim>\<open>_detect_component_changes\<close>: the memory afterwards
  and the events of this component.\<close>

definition detect_component_change ::
  "monitor_state \<Rightarrow> ComponentStatus \<Rightarrow> monitor_state \<times> event list" where
  "detect_component_change st component =
     (case last_known_state st (state_key component) of
        None \<Rightarrow>
          (st\<lparr>last_known_state :=
                (last_known_state st)(state_key component \<mapsto> current_state component)\<rparr>,
           [ComponentEvent component ''Initial Status''])
      | Some old_state \<Rightarrow>
          if old_state \<noteq> current_state component then
            (st\<lparr>last_known_state :=
                  (last_known_state st)(state_key component \<mapsto> current_state component)\<rparr>,
             [ComponentEvent component (''Status changed from '' @ old_state)])
          else (st, []))"

fun detect_component_changes ::
  "monitor_state \<Rightarrow> ComponentStatus list \<Rightarrow> monitor_state \<times> event list" where
  "detect_component_changes st [] = (st, [])"
| "detect_component_changes st (component # components) =
     (case detect_component_change st component of
        (st', evs) \<Rightarrow>
          (case detect_component_changes st' components of
             (st'', evs') \<Rightarrow> (st'', evs @ evs')))"

text \<open>The inner loop of \<^verbatim>\<open>_detect_incident_updates\<close>, over the updates of one incident.\<close>

fun detect_updates ::
  "monitor_state \<Rightarrow> Incident \<Rightarrow> IncidentUpdate list \<Rightarrow> monitor_state \<times> event list" where
  "detect_updates st incident [] = (st, [])"
| "detect_updates st incident (update # updates) =
     (if upd_id update \<notin> processed_incident_updates st then
        (case detect_updates
                (st\<lparr>processed_incident_updates :=
                      insert (upd_id update) (processed_incident_updates st)\<rparr>)
                incident updates of
           (st', evs) \<Rightarrow> (st', IncidentEvent incident update # evs))
      else detect_updates st incident updates)"

fun detect_incident_updates ::
  "monitor_state \<Rightarrow> Incident list \<Rightarrow> monitor_state \<times> event list" where
  "detect_incident_updates st [] = (st, [])"
| "detect_incident_updates st (incident # incidents) =
     (case detect_updates st incident (inc_updates incident) of
        (st', evs) \<Rightarrow>
          (case detect_incident_updates st' incidents of
             (st'', evs') \<Rightarrow> (st'', evs @ evs')))"

section \<open>The poll cycle and the loop (monitor.py, \<^verbatim>\<open>check_status_updates\<close> and
  \<^verbatim>\<open>start_monitoring\<close>)\<close>

text \<open>
  What a run leaves behind: the memory, the events emitted and the records logged, in
  program order, and the exception that ended it, if one did. An exception does not undo
  what was done before it.
\<close>

record run =
  final_state :: monitor_state
  emitted :: "event list"
  logged :: "log_record list"
  raised :: "error option"

definition and_then_run :: "run \<Rightarrow> (monitor_state \<Rightarrow> run) \<Rightarrow> run" where
  "and_then_run r f =
     (case raised r of
        Some e \<Rightarrow> r
      | None \<Rightarrow>
          (let r' = f (final_state r) in
           \<lparr>final_state = final_state r', emitted = emitted r @ emitted r',
            logged = logged r @ logged r', raised = raised r'\<rparr>))"

text \<open>The first block of \<^verbatim>\<open>check_status_updates\<close>: the summary is fetched and, when the
  value returned is truthy, parsed and fed to the detector.\<close>

definition check_summary :: "network \<Rightarrow> monitor_state \<Rightarrow> run" where
  "check_summary net st =
     (case fetch_with_etag net st SUMMARY_ENDPOINT of
        (summary_data, st1, log1) \<Rightarrow>
          if truthy summary_data then
            (case parse_components summary_data of
               Inl e \<Rightarrow> \<lparr>final_state = st1, emitted = [], logged = log1, raised = Some e\<rparr>
             | Inr components \<Rightarrow>
                 (case detect_component_changes st1 components of
                    (st2, evs) \<Rightarrow>
                      \<lparr>final_state = st2, emitted = evs, logged = log1, raised = None\<rparr>))
          else \<lparr>final_state = st1, emitted = [], logged = log1, raised = None\<rparr>)"

text \<open>The second block: the same for the incidents.\<close>

definition check_incidents :: "network \<Rightarrow> monitor_state \<Rightarrow> run" where
  "check_incidents net st =
     (case fetch_with_etag net st INCIDENTS_ENDPOINT of
        (incidents_data, st1, log1) \<Rightarrow>
          if truthy incidents_data then
            (case parse_incidents incidents_data of
               Inl e \<Rightarrow> \<lparr>final_state = st1, emitted = [], logged = log1, raised = Some e\<rparr>
             | Inr incidents \<Rightarrow>
                 (case detect_incident_updates st1 incidents of
                    (st2, evs) \<Rightarrow>
                      \<lparr>final_state = st2, emitted = evs, logged = log1, raised = None\<rparr>))
          else \<lparr>final_state = st1, emitted = [], logged = log1, raised = None\<rparr>)"

text \<open>
  \<^verbatim>\<open>check_status_updates\<close> runs the two blocks in sequence and has no \<^verbatim>\<open>try\<close>: an
  exception of the first block leaves the function before the second one starts.
\<close>

definition check_status_updates :: "network \<Rightarrow> monitor_state \<Rightarrow> run" where
  "check_status_updates net st = and_then_run (check_summary net st) (check_incidents net)"

text \<open>
  \<^verbatim>\<open>start_monitoring\<close>: \<^verbatim>\<open>while True\<close> runs a cycle and sleeps; \<^verbatim>\<open>except Exception\<close>
  around the loop logs the exception and the function returns. The list gives the network
  of each coming cycle; the loop of the model ends with the list, the loop of the source
  only with an exception.
\<close>

fun start_monitoring :: "network list \<Rightarrow> monitor_state \<Rightarrow> run" where
  "start_monitoring [] st = \<lparr>final_state = st, emitted = [], logged = [], raised = None\<rparr>"
| "start_monitoring (net # nets) st =
     (let r = check_status_updates net st in
      case raised r of
        Some e \<Rightarrow> r\<lparr>logged := logged r @ [ErrorUnexpected e]\<rparr>
      | None \<Rightarrow> and_then_run r (start_monitoring nets))"

section \<open>Reading the emitted events\<close>

text \<open>The components of the component events, the (incident, update) pairs of the incident
  events and the update ids of the incident events, in the order of emission.\<close>

fun event_components :: "event list \<Rightarrow> ComponentStatus list" where
  "event_components [] = []"
| "event_components (ComponentEvent c t # evs) = c # event_components evs"
| "event_components (IncidentEvent i u # evs) = event_components evs"

fun event_updates :: "event list \<Rightarrow> (Incident \<times> IncidentUpdate) list" where
  "event_updates [] = []"
| "event_updates (ComponentEvent c t # evs) = event_updates evs"
| "event_updates (IncidentEvent i u # evs) = (i, u) # event_updates evs"

definition update_ids :: "event list \<Rightarrow> string list" where
  "update_ids evs = map (\<lambda>p. upd_id (snd p)) (event_updates evs)"

text \<open>The (incident, update) pairs of a list of incidents in the order the two nested
  loops of \<^verbatim>\<open>_detect_incident_updates\<close> visit them.\<close>

definition update_pairs :: "Incident list \<Rightarrow> (Incident \<times> IncidentUpdate) list" where
  "update_pairs incidents = concat (map (\<lambda>i. map (Pair i) (inc_updates i)) incidents)"


section \<open>Concrete inputs\<close>

text \<open>Components, incidents and networks the witnesses and counterexamples below are
  evaluated at.\<close>

definition api_operational :: ComponentStatus where
  "api_operational = \<lparr>comp_id = ''c1'', comp_name = ''API'', comp_status = ''operational'',
                       comp_updated_at = ''t1'', comp_position = 1\<rparr>"

definition api_degraded :: ComponentStatus where
  "api_degraded = \<lparr>comp_id = ''c1'', comp_name = ''API'', comp_status = ''degraded_performance'',
                    comp_updated_at = ''t2'', comp_position = 1\<rparr>"

definition chat_operational :: ComponentStatus where
  "chat_operational = \<lparr>comp_id = ''c2'', comp_name = ''ChatGPT'', comp_status = ''operational'',
                        comp_updated_at = ''t1'', comp_position = 2\<rparr>"

text \<open>One component before and after a change of both its name and its status: the colon
  moves from the name to the status.\<close>

definition colon_in_name :: ComponentStatus where
  "colon_in_name = \<lparr>comp_id = ''c3'', comp_name = ''API:v2'', comp_status = ''down'',
                     comp_updated_at = ''t1'', comp_position = 3\<rparr>"

definition colon_in_status :: ComponentStatus where
  "colon_in_status = \<lparr>comp_id = ''c3'', comp_name = ''API'', comp_status = ''v2:down'',
                       comp_updated_at = ''t2'', comp_position = 3\<rparr>"




definition net_no_etag :: network where
  "net_no_etag url headers = Got (Response 200 None (Decoded (JObj [(''components'', JArr [])])))"

definition state_with_validator :: monitor_state where
  "state_with_validator = init_state\<lparr>etags := [SUMMARY_ENDPOINT \<mapsto> ''v1'']\<rparr>"

definition net_quoted_etag :: network where
  "net_quoted_etag url headers =
     Got (Response 200 (Some [CHR 0x22, CHR ''v'', CHR ''2'', CHR 0x22])
            (Decoded (JObj [(''components'', JArr [])])))"

text \<open>A summary payload with the component \<open>api_operational\<close>, and an incidents payload
  with one incident that has one update.\<close>

definition summary_payload :: json where
  "summary_payload =
     JObj [(''components'',
            JArr [JObj [(''id'', JStr ''c1''), (''name'', JStr ''API''),
                        (''status'', JStr ''operational''), (''updated_at'', JStr ''t1''),
                        (''position'', JNum 1)]])]"

definition outage_update :: IncidentUpdate where
  "outage_update = \<lparr>upd_id = ''u1'', upd_body = ''Investigating'', upd_created_at = ''t1'',
                     upd_display_at = ''t1'', upd_status = ''investigating'',
                     upd_incident_id = ''i1''\<rparr>"

definition outage :: Incident where
  "outage = \<lparr>inc_id = ''i1'', inc_name = ''ChatGPT outage'', inc_status = ''investigating'',
              inc_created_at = ''t1'', inc_updated_at = ''t1'', inc_resolved_at = None,
              inc_impact = ''major'', inc_updates = [outage_update]\<rparr>"

definition incidents_payload :: json where
  "incidents_payload =
     JObj [(''incidents'',
            JArr [JObj [(''id'', JStr ''i1''), (''name'', JStr ''ChatGPT outage''),
                        (''status'', JStr ''investigating''), (''created_at'', JStr ''t1''),
                        (''updated_at'', JStr ''t1''), (''impact'', JStr ''major''),
                        (''incident_updates'',
                         JArr [JObj [(''id'', JStr ''u1''), (''body'', JStr ''Investigating''),
                                     (''created_at'', JStr ''t1''), (''display_at'', JStr ''t1''),
                                     (''status'', JStr ''investigating''),
                                     (''incident_id'', JStr ''i1'')]])]])]"

text \<open>The summary payload with the field \<^verbatim>\<open>name\<close> of its component left out.\<close>

definition summary_without_name :: json where
  "summary_without_name =
     JObj [(''components'',
            JArr [JObj [(''id'', JStr ''c1''), (''status'', JStr ''operational''),
                        (''updated_at'', JStr ''t1''), (''position'', JNum 1)]])]"




definition net_summary_empty_object :: network where
  "net_summary_empty_object url headers =
     (if url = BASE_URL @ SUMMARY_ENDPOINT then Got (Response 200 None (Decoded (JObj [])))
      else Got (Response 200 None (Decoded incidents_payload)))"




section \<open>Facts about the detector\<close>

lemma event_components_append:
  "event_components (xs @ ys) = event_components xs @ event_components ys"
  by (induction xs rule: event_components.induct) auto

lemma event_updates_append:
  "event_updates (xs @ ys) = event_updates xs @ event_updates ys"
  by (induction xs rule: event_updates.induct) auto

lemma update_ids_append: "update_ids (xs @ ys) = update_ids xs @ update_ids ys"
  by (simp add: update_ids_def event_updates_append)

lemma update_ids_simps:
  "update_ids [] = []"
  "update_ids (ComponentEvent c t # evs) = update_ids evs"
  "update_ids (IncidentEvent i u # evs) = upd_id u # update_ids evs"
  by (simp_all add: update_ids_def)

lemma detect_updates_inv:
  "detect_updates st i us = (st', evs) \<Longrightarrow>
     distinct (update_ids evs) \<and> set (update_ids evs) \<inter> processed_incident_updates st = {}
     \<and> processed_incident_updates st' = processed_incident_updates st \<union> set (update_ids evs)
     \<and> etags st' = etags st \<and> last_known_state st' = last_known_state st"
proof (induction us arbitrary: st st' evs)
  case Nil
  then show ?case by (simp add: update_ids_simps)
next
  case (Cons u us)
  show ?case
  proof (cases "upd_id u \<in> processed_incident_updates st")
    case True
    with Cons show ?thesis by simp
  next
    case False
    let ?st1 = "st\<lparr>processed_incident_updates := insert (upd_id u) (processed_incident_updates st)\<rparr>"
    obtain st2 evs2 where r: "detect_updates ?st1 i us = (st2, evs2)" by (cases "detect_updates ?st1 i us")
    from Cons.IH[OF r] have ih: "distinct (update_ids evs2)"
      "set (update_ids evs2) \<inter> insert (upd_id u) (processed_incident_updates st) = {}"
      "processed_incident_updates st2 = insert (upd_id u) (processed_incident_updates st) \<union> set (update_ids evs2)"
      "etags st2 = etags st" "last_known_state st2 = last_known_state st" by simp_all
    from Cons.prems False r have "st' = st2" "evs = IncidentEvent i u # evs2" by simp_all
    with ih False show ?thesis by (auto simp: update_ids_simps)
  qed
qed

lemma detect_updates_events:
  "detect_updates st i us = (st', evs) \<Longrightarrow>
     event_components evs = [] \<and> subseq (event_updates evs) (map (Pair i) us)"
proof (induction us arbitrary: st st' evs)
  case Nil
  then show ?case by simp
next
  case (Cons u us)
  show ?case
  proof (cases "upd_id u \<in> processed_incident_updates st")
    case True
    with Cons show ?thesis by (auto intro: subseq_Cons')
  next
    case False
    let ?st1 = "st\<lparr>processed_incident_updates := insert (upd_id u) (processed_incident_updates st)\<rparr>"
    obtain st2 evs2 where r: "detect_updates ?st1 i us = (st2, evs2)" by (cases "detect_updates ?st1 i us")
    from Cons.prems False r have "st' = st2" "evs = IncidentEvent i u # evs2" by simp_all
    with Cons.IH[OF r] show ?thesis by simp
  qed
qed

lemma detect_incident_updates_inv:
  "detect_incident_updates st incs = (st', evs) \<Longrightarrow>
     distinct (update_ids evs) \<and> set (update_ids evs) \<inter> processed_incident_updates st = {}
     \<and> processed_incident_updates st' = processed_incident_updates st \<union> set (update_ids evs)
     \<and> etags st' = etags st \<and> last_known_state st' = last_known_state st"
proof (induction incs arbitrary: st st' evs)
  case Nil
  then show ?case by (simp add: update_ids_simps)
next
  case (Cons i incs)
  obtain st1 evs1 where r1: "detect_updates st i (inc_updates i) = (st1, evs1)"
    by (cases "detect_updates st i (inc_updates i)")
  obtain st2 evs2 where r2: "detect_incident_updates st1 incs = (st2, evs2)"
    by (cases "detect_incident_updates st1 incs")
  note a = detect_updates_inv[OF r1] and b = Cons.IH[OF r2]
  from Cons.prems r1 r2 have "st' = st2" "evs = evs1 @ evs2" by simp_all
  with a b show ?case by (auto simp: update_ids_append)
qed

lemma detect_incident_updates_events:
  "detect_incident_updates st incs = (st', evs) \<Longrightarrow>
     event_components evs = [] \<and> subseq (event_updates evs) (update_pairs incs)"
proof (induction incs arbitrary: st st' evs)
  case Nil
  then show ?case by (simp add: update_pairs_def)
next
  case (Cons i incs)
  obtain st1 evs1 where r1: "detect_updates st i (inc_updates i) = (st1, evs1)"
    by (cases "detect_updates st i (inc_updates i)")
  obtain st2 evs2 where r2: "detect_incident_updates st1 incs = (st2, evs2)"
    by (cases "detect_incident_updates st1 incs")
  note a = detect_updates_events[OF r1] and b = Cons.IH[OF r2]
  from Cons.prems r1 r2 have "st' = st2" "evs = evs1 @ evs2" by simp_all
  with a b show ?case
    by (auto simp: event_components_append event_updates_append update_pairs_def
             intro: list_emb_append_mono)
qed







lemma state_key_inj: "state_key c = state_key c' \<longleftrightarrow> comp_id c = comp_id c'"
  by (simp add: state_key_def)

lemma detect_component_change_frame:
  "detect_component_change st c = (st', evs) \<Longrightarrow>
     etags st' = etags st \<and> processed_incident_updates st' = processed_incident_updates st
     \<and> last_known_state st' (state_key c) = Some (current_state c)
     \<and> (\<forall>k. k \<noteq> state_key c \<longrightarrow> last_known_state st' k = last_known_state st k)
     \<and> event_updates evs = [] \<and> subseq (event_components evs) [c]"
  by (auto simp: detect_component_change_def split: option.splits if_splits)

lemma detect_component_changes_frame:
  "detect_component_changes st cs = (st', evs) \<Longrightarrow>
     etags st' = etags st \<and> processed_incident_updates st' = processed_incident_updates st
     \<and> (\<forall>k. k \<notin> state_key ` set cs \<longrightarrow> last_known_state st' k = last_known_state st k)
     \<and> event_updates evs = [] \<and> subseq (event_components evs) cs"
proof (induction cs arbitrary: st st' evs)
  case Nil
  then show ?case by simp
next
  case (Cons c cs)
  obtain st1 evs1 where r1: "detect_component_change st c = (st1, evs1)"
    by (cases "detect_component_change st c")
  obtain st2 evs2 where r2: "detect_component_changes st1 cs = (st2, evs2)"
    by (cases "detect_component_changes st1 cs")
  note a = detect_component_change_frame[OF r1] and b = Cons.IH[OF r2]
  from Cons.prems r1 r2 have e: "st' = st2" "evs = evs1 @ evs2" by simp_all
  from a b have "subseq (event_components evs1 @ event_components evs2) ([c] @ cs)"
    by (intro list_emb_append_mono) simp_all
  with a b e show ?case
    by (auto simp: event_components_append event_updates_append)
qed

lemma detect_component_changes_stored:
  "detect_component_changes st cs = (st', evs) \<Longrightarrow> distinct (map comp_id cs) \<Longrightarrow>
     c \<in> set cs \<Longrightarrow> last_known_state st' (state_key c) = Some (current_state c)"
proof (induction cs arbitrary: st st' evs)
  case Nil
  then show ?case by simp
next
  case (Cons d cs)
  obtain st1 evs1 where r1: "detect_component_change st d = (st1, evs1)"
    by (cases "detect_component_change st d")
  obtain st2 evs2 where r2: "detect_component_changes st1 cs = (st2, evs2)"
    by (cases "detect_component_changes st1 cs")
  note a = detect_component_change_frame[OF r1] and b = detect_component_changes_frame[OF r2]
  from Cons.prems r1 r2 have e: "st' = st2" by simp
  show ?case
  proof (cases "c \<in> set cs")
    case True
    with Cons.IH[OF r2] Cons.prems e show ?thesis by simp
  next
    case False
    with Cons.prems have c: "c = d" by simp
    from Cons.prems have "state_key d \<notin> state_key ` set cs"
      by (auto simp: state_key_inj)
    with a b e c show ?thesis by simp
  qed
qed

lemma detect_component_changes_known:
  "\<forall>c\<in>set cs. last_known_state st (state_key c) = Some (current_state c) \<Longrightarrow>
     detect_component_changes st cs = (st, [])"
  by (induction cs) (auto simp: detect_component_change_def)

lemma detect_component_changes_initial:
  "\<forall>c\<in>set cs. last_known_state st (state_key c) = None \<Longrightarrow> distinct (map comp_id cs) \<Longrightarrow>
     snd (detect_component_changes st cs) = map (\<lambda>c. ComponentEvent c ''Initial Status'') cs"
proof (induction cs arbitrary: st)
  case Nil
  then show ?case by simp
next
  case (Cons d cs)
  let ?st1 = "st\<lparr>last_known_state := (last_known_state st)(state_key d \<mapsto> current_state d)\<rparr>"
  from Cons.prems have r1: "detect_component_change st d = (?st1, [ComponentEvent d ''Initial Status''])"
    by (simp add: detect_component_change_def)
  have "\<forall>c\<in>set cs. last_known_state ?st1 (state_key c) = None"
  proof
    fix c assume c: "c \<in> set cs"
    with Cons.prems have "comp_id c \<noteq> comp_id d" by (metis distinct.simps(2) image_eqI list.simps(9) set_map)
    with c Cons.prems show "last_known_state ?st1 (state_key c) = None"
      by (simp add: state_key_inj)
  qed
  with Cons.IH[of ?st1] Cons.prems
  have "snd (detect_component_changes ?st1 cs) = map (\<lambda>c. ComponentEvent c ''Initial Status'') cs"
    by simp
  with r1 show ?case by (auto split: prod.splits)
qed

section \<open>Facts about the fetcher\<close>

lemma store_etag_frame:
  "last_known_state (store_etag st ep h) = last_known_state st"
  "processed_incident_updates (store_etag st ep h) = processed_incident_updates st"
  "ep' \<noteq> ep \<Longrightarrow> etags (store_etag st ep h) ep' = etags st ep'"
  by (simp_all add: store_etag_def split: option.splits)

lemma fetch_with_etag_frame:
  "fetch_with_etag net st ep = (d, st', l) \<Longrightarrow>
     last_known_state st' = last_known_state st
     \<and> processed_incident_updates st' = processed_incident_updates st
     \<and> (\<forall>ep'. ep' \<noteq> ep \<longrightarrow> etags st' ep' = etags st ep')"
  by (auto simp: fetch_with_etag_def Let_def store_etag_frame
           split: http_outcome.splits if_splits body.splits)

lemma endpoints_differ: "SUMMARY_ENDPOINT \<noteq> INCIDENTS_ENDPOINT"
  by (simp add: SUMMARY_ENDPOINT_def INCIDENTS_ENDPOINT_def)

lemma request_headers_cong:
  "etags st' ep = etags st ep \<Longrightarrow> request_headers st' ep = request_headers st ep"
  by (simp add: request_headers_def)

section \<open>Facts about the cycle\<close>

lemma check_summary_frame:
  "processed_incident_updates (final_state (check_summary net st)) = processed_incident_updates st
   \<and> etags (final_state (check_summary net st)) INCIDENTS_ENDPOINT = etags st INCIDENTS_ENDPOINT
   \<and> event_updates (emitted (check_summary net st)) = []"
proof -
  obtain d st1 l where f: "fetch_with_etag net st SUMMARY_ENDPOINT = (d, st1, l)"
    by (cases "fetch_with_etag net st SUMMARY_ENDPOINT")
  note a = fetch_with_etag_frame[OF f]
  show ?thesis
  proof (cases "truthy d")
    case False
    with f a endpoints_differ show ?thesis by (simp add: check_summary_def)
  next
    case True
    show ?thesis
    proof (cases "parse_components d")
      case (Inl e)
      with True f a endpoints_differ show ?thesis by (simp add: check_summary_def)
    next
      case (Inr cs)
      obtain st2 evs where r: "detect_component_changes st1 cs = (st2, evs)"
        by (cases "detect_component_changes st1 cs")
      from detect_component_changes_frame[OF r] Inr True f a endpoints_differ r
      show ?thesis by (simp add: check_summary_def)
    qed
  qed
qed

lemma check_incidents_frame:
  "last_known_state (final_state (check_incidents net st)) = last_known_state st
   \<and> etags (final_state (check_incidents net st)) SUMMARY_ENDPOINT = etags st SUMMARY_ENDPOINT
   \<and> event_components (emitted (check_incidents net st)) = []
   \<and> distinct (update_ids (emitted (check_incidents net st)))
   \<and> set (update_ids (emitted (check_incidents net st))) \<inter> processed_incident_updates st = {}
   \<and> processed_incident_updates (final_state (check_incidents net st))
       = processed_incident_updates st \<union> set (update_ids (emitted (check_incidents net st)))"
proof -
  obtain d st1 l where f: "fetch_with_etag net st INCIDENTS_ENDPOINT = (d, st1, l)"
    by (cases "fetch_with_etag net st INCIDENTS_ENDPOINT")
  note a = fetch_with_etag_frame[OF f]
  show ?thesis
  proof (cases "truthy d")
    case False
    with f a endpoints_differ show ?thesis by (simp add: check_incidents_def update_ids_simps)
  next
    case True
    show ?thesis
    proof (cases "parse_incidents d")
      case (Inl e)
      with True f a endpoints_differ show ?thesis by (simp add: check_incidents_def update_ids_simps)
    next
      case (Inr incs)
      obtain st2 evs where r: "detect_incident_updates st1 incs = (st2, evs)"
        by (cases "detect_incident_updates st1 incs")
      from detect_incident_updates_inv[OF r] detect_incident_updates_events[OF r]
        Inr True f a endpoints_differ r
      show ?thesis by (simp add: check_incidents_def)
    qed
  qed
qed






lemma and_then_run_after_silent:
  "and_then_run \<lparr>final_state = s, emitted = [], logged = [], raised = None\<rparr> f = f s"
  by (cases "f s") (simp add: and_then_run_def)

lemma fetch_value_cong:
  "etags st' ep = etags st ep \<Longrightarrow>
     fst (fetch_with_etag net st' ep) = fst (fetch_with_etag net st ep)
     \<and> snd (snd (fetch_with_etag net st' ep)) = snd (snd (fetch_with_etag net st ep))"
  by (simp add: fetch_with_etag_def Let_def request_headers_def
           split: http_outcome.splits body.splits)

lemma check_summary_headers:
  "request_headers (final_state (check_summary net st)) INCIDENTS_ENDPOINT
     = request_headers st INCIDENTS_ENDPOINT"
  using check_summary_frame[of net st] by (simp add: request_headers_def)


lemma fetch_decoded:
  "net (BASE_URL @ ep) (request_headers st ep) = Got r \<Longrightarrow> resp_status r = 200 \<Longrightarrow>
     resp_body r = Decoded d \<Longrightarrow>
     fetch_with_etag net st ep = (d, store_etag st ep (resp_etag r), [])"
  by (simp add: fetch_with_etag_def Let_def)


section \<open>The concrete inputs, evaluated\<close>

lemma summary_url: "BASE_URL @ SUMMARY_ENDPOINT \<noteq> BASE_URL @ INCIDENTS_ENDPOINT"
  by (simp add: endpoints_differ)


lemma parse_incidents_payload: "parse_incidents incidents_payload = Inr [outage]"
  by (simp add: parse_incidents_def parse_incident_def parse_update_def and_then_def
                incidents_payload_def outage_def outage_update_def)


lemma truthy_payloads:
  "truthy summary_payload" "truthy incidents_payload" "truthy summary_without_name"
  by (simp_all add: summary_payload_def incidents_payload_def summary_without_name_def)

lemma check_incidents_fresh_example:
  "check_incidents net st = \<lparr>final_state = st\<lparr>processed_incident_updates := insert ''u1'' (processed_incident_updates st)\<rparr>,
       emitted = [IncidentEvent outage outage_update], logged = [], raised = None\<rparr>"
  if "net (BASE_URL @ INCIDENTS_ENDPOINT) (request_headers st INCIDENTS_ENDPOINT)
        = Got (Response 200 None (Decoded incidents_payload))"
     "''u1'' \<notin> processed_incident_updates st"
  using that
  by (simp add: check_incidents_def fetch_with_etag_def store_etag_def truthy_payloads
                parse_incidents_payload)
     (simp add: outage_def outage_update_def)


section \<open>Facts about the order of the events of a cycle\<close>

lemma check_summary_order:
  "\<exists>comps. (comps = [] \<or> parse_components (fst (fetch_with_etag net st SUMMARY_ENDPOINT)) = Inr comps)
      \<and> event_updates (emitted (check_summary net st)) = []
      \<and> subseq (event_components (emitted (check_summary net st))) comps"
proof -
  obtain d st1 l where f: "fetch_with_etag net st SUMMARY_ENDPOINT = (d, st1, l)"
    by (cases "fetch_with_etag net st SUMMARY_ENDPOINT")
  show ?thesis
  proof (cases "truthy d")
    case False
    with f have "emitted (check_summary net st) = []" by (simp add: check_summary_def)
    then show ?thesis by (intro exI[of _ "[]"]) simp
  next
    case True
    show ?thesis
    proof (cases "parse_components d")
      case (Inl e)
      with True f have "emitted (check_summary net st) = []" by (simp add: check_summary_def)
      then show ?thesis by (intro exI[of _ "[]"]) simp
    next
      case (Inr comps)
      obtain st2 evs where r: "detect_component_changes st1 comps = (st2, evs)"
        by (cases "detect_component_changes st1 comps")
      with True f Inr have "emitted (check_summary net st) = evs" by (simp add: check_summary_def)
      with detect_component_changes_frame[OF r] f Inr show ?thesis
        by (intro exI[of _ comps]) simp
    qed
  qed
qed

lemma check_incidents_order:
  "\<exists>incs. (incs = [] \<or> parse_incidents (fst (fetch_with_etag net st INCIDENTS_ENDPOINT)) = Inr incs)
      \<and> event_components (emitted (check_incidents net st)) = []
      \<and> subseq (event_updates (emitted (check_incidents net st))) (update_pairs incs)"
proof -
  obtain d st1 l where f: "fetch_with_etag net st INCIDENTS_ENDPOINT = (d, st1, l)"
    by (cases "fetch_with_etag net st INCIDENTS_ENDPOINT")
  show ?thesis
  proof (cases "truthy d")
    case False
    with f have "emitted (check_incidents net st) = []" by (simp add: check_incidents_def)
    then show ?thesis by (intro exI[of _ "[]"]) simp
  next
    case True
    show ?thesis
    proof (cases "parse_incidents d")
      case (Inl e)
      with True f have "emitted (check_incidents net st) = []" by (simp add: check_incidents_def)
      then show ?thesis by (intro exI[of _ "[]"]) simp
    next
      case (Inr incs)
      obtain st2 evs where r: "detect_incident_updates st1 incs = (st2, evs)"
        by (cases "detect_incident_updates st1 incs")
      with True f Inr have "emitted (check_incidents net st) = evs"
        by (simp add: check_incidents_def)
      with detect_incident_updates_events[OF r] f Inr show ?thesis
        by (intro exI[of _ incs]) simp
    qed
  qed
qed

section \<open>Facts about records with a missing field\<close>



lemma parse_update_missing:
  assumes "k \<in> {''id'', ''body'', ''created_at'', ''display_at'', ''status'', ''incident_id''}"
    and "map_of fs k = None"
  shows "\<exists>k'. k' \<in> {''id'', ''body'', ''created_at'', ''display_at'', ''status'', ''incident_id''}
              \<and> map_of fs k' = None \<and> parse_update (JObj fs) = Inl (KeyError k')"
proof (cases "map_of fs ''id''")
  case None
  then show ?thesis
    by (intro exI[of _ "''id''"]) (simp add: parse_update_def and_then_def)
next
  case m0: (Some v0)
  show ?thesis
  proof (cases "map_of fs ''body''")
    case None
    with m0 show ?thesis
      by (intro exI[of _ "''body''"]) (simp add: parse_update_def and_then_def)
  next
    case m1: (Some v1)
    show ?thesis
    proof (cases "map_of fs ''created_at''")
      case None
      with m0 m1 show ?thesis
        by (intro exI[of _ "''created_at''"]) (simp add: parse_update_def and_then_def)
    next
      case m2: (Some v2)
      show ?thesis
      proof (cases "map_of fs ''display_at''")
        case None
        with m0 m1 m2 show ?thesis
          by (intro exI[of _ "''display_at''"]) (simp add: parse_update_def and_then_def)
      next
        case m3: (Some v3)
        show ?thesis
        proof (cases "map_of fs ''status''")
          case None
          with m0 m1 m2 m3 show ?thesis
            by (intro exI[of _ "''status''"]) (simp add: parse_update_def and_then_def)
        next
          case m4: (Some v4)
          show ?thesis
          proof (cases "map_of fs ''incident_id''")
            case None
            with m0 m1 m2 m3 m4 show ?thesis
              by (intro exI[of _ "''incident_id''"]) (simp add: parse_update_def and_then_def)
          next
            case m5: (Some v5)
            with m0 m1 m2 m3 m4 assms show ?thesis by (elim insertE emptyE) simp_all
          qed
        qed
      qed
    qed
  qed
qed




lemma start_monitoring_raise:
  "raised (check_status_updates net st) = Some e \<Longrightarrow>
     start_monitoring (net # nets) st
       = (check_status_updates net st)
           \<lparr>logged := logged (check_status_updates net st) @ [ErrorUnexpected e]\<rparr>"
  by (simp add: Let_def)

section \<open>Facts about the signature string\<close>

text \<open>The string \<^verbatim>\<open>name:status\<close> determines the pair when no status holds a colon; a
  changed pair is then reported by the loop body of \<^verbatim>\<open>_detect_component_changes\<close>.\<close>

lemma split_at_first:
  "x \<notin> set xs \<Longrightarrow> x \<notin> set xs' \<Longrightarrow> xs @ x # ys = xs' @ x # ys' \<Longrightarrow>
     xs = xs' \<and> ys = ys'"
proof (induction xs arbitrary: xs')
  case Nil
  then show ?case by (cases xs') auto
next
  case (Cons a xs)
  show ?case
  proof (cases xs')
    case Nil
    with Cons.prems show ?thesis by auto
  next
    case (Cons b zs)
    with Cons.prems have "a = b" "x \<notin> set xs" "x \<notin> set zs" "xs @ x # ys = zs @ x # ys'"
      by simp_all
    with Cons.IH[of zs] Cons show ?thesis by simp
  qed
qed

lemma current_state_inj:
  assumes "CHR '':'' \<notin> set (comp_status a)" and "CHR '':'' \<notin> set (comp_status b)"
  shows "current_state a = current_state b
           \<longleftrightarrow> comp_name a = comp_name b \<and> comp_status a = comp_status b"
proof
  assume e: "current_state a = current_state b"
  have r: "rev (current_state c) = rev (comp_status c) @ CHR '':'' # rev (comp_name c)" for c
    by (simp add: current_state_def)
  from e have "rev (current_state a) = rev (current_state b)" by (rule arg_cong)
  then have q: "rev (comp_status a) @ CHR '':'' # rev (comp_name a)
               = rev (comp_status b) @ CHR '':'' # rev (comp_name b)"
    unfolding r .
  from assms have n: "CHR '':'' \<notin> set (rev (comp_status a))"
    "CHR '':'' \<notin> set (rev (comp_status b))" by simp_all
  from split_at_first[OF n q]
  show "comp_name a = comp_name b \<and> comp_status a = comp_status b"
    by (simp only: rev_is_rev_conv)
next
  assume "comp_name a = comp_name b \<and> comp_status a = comp_status b"
  then show "current_state a = current_state b" by (simp add: current_state_def)
qed

lemma changed_pair_detected:
  assumes "last_known_state st (state_key c) = Some (current_state c0)"
    and "CHR '':'' \<notin> set (comp_status c0)" and "CHR '':'' \<notin> set (comp_status c)"
    and "(comp_name c0, comp_status c0) \<noteq> (comp_name c, comp_status c)"
  shows "detect_component_change st c
           = (st\<lparr>last_known_state := (last_known_state st)(state_key c \<mapsto> current_state c)\<rparr>,
              [ComponentEvent c (''Status changed from '' @ current_state c0)])"
proof -
  from current_state_inj[OF assms(2,3)] assms(4) have "current_state c0 \<noteq> current_state c"
    by simp
  with assms(1) show ?thesis by (simp add: detect_component_change_def)
qed

section \<open>The claims\<close>

text \<open>
  Claim C1. The stored signature of a component is the string \<^verbatim>\<open>name:status\<close>, not the
  pair. A component stored as name \<^verbatim>\<open>API:v2\<close>, status \<^verbatim>\<open>down\<close> and observed next as name
  \<^verbatim>\<open>API\<close>, status \<^verbatim>\<open>v2:down\<close> has a different (name, status) pair and the same string
  \<^verbatim>\<open>API:v2:down\<close>: the first observation emits the initial event, the second emits no event
  and leaves the memory as it was.
\<close>

theorem signature_change_not_detected:
  "comp_id colon_in_name = comp_id colon_in_status
   \<and> (comp_name colon_in_name, comp_status colon_in_name)
       \<noteq> (comp_name colon_in_status, comp_status colon_in_status)
   \<and> snd (detect_component_changes init_state [colon_in_name])
       = [ComponentEvent colon_in_name ''Initial Status'']
   \<and> last_known_state (fst (detect_component_changes init_state [colon_in_name]))
        (state_key colon_in_name) = Some ''API:v2:down''
   \<and> detect_component_changes
         (fst (detect_component_changes init_state [colon_in_name])) [colon_in_status]
       = (fst (detect_component_changes init_state [colon_in_name]), [])"
  by (simp add: detect_component_change_def init_state_def state_key_def current_state_def
                colon_in_name_def colon_in_status_def)


text \<open>
  Claim C3, as stated, at a payload that lists the id \<^verbatim>\<open>c1\<close> twice with two statuses:
  the first call emits an initial event and a change event, and the second call with the
  identical payload emits two change events.
\<close>

theorem replay_repeated_id_counterexample:
  "snd (detect_component_changes init_state [api_operational, api_degraded])
     = [ComponentEvent api_operational ''Initial Status'',
        ComponentEvent api_degraded ''Status changed from API:operational'']
   \<and> snd (detect_component_changes
            (fst (detect_component_changes init_state [api_operational, api_degraded]))
            [api_operational, api_degraded])
     = [ComponentEvent api_operational ''Status changed from API:degraded_performance'',
        ComponentEvent api_degraded ''Status changed from API:operational'']"
  by (simp add: detect_component_change_def init_state_def state_key_def current_state_def
                api_operational_def api_degraded_def)

text \<open>
  Claim C3, amended. For every components payload whose ids are pairwise distinct: from the
  initial memory the first call of \<^verbatim>\<open>_detect_component_changes\<close> emits one initial event
  per component, in input order; from any memory, a second call with the identical payload
  emits no event and leaves the memory as the first call left it.
\<close>

theorem replay_components_idempotent:
  assumes "distinct (map comp_id components)"
  shows "snd (detect_component_changes init_state components)
           = map (\<lambda>c. ComponentEvent c ''Initial Status'') components
         \<and> detect_component_changes (fst (detect_component_changes st components)) components
           = (fst (detect_component_changes st components), [])"
proof -
  obtain st1 evs1 where r: "detect_component_changes st components = (st1, evs1)"
    by (cases "detect_component_changes st components")
  have "\<forall>c\<in>set components. last_known_state st1 (state_key c) = Some (current_state c)"
    using detect_component_changes_stored[OF r assms] by blast
  then have "detect_component_changes st1 components = (st1, [])"
    by (rule detect_component_changes_known)
  moreover have "snd (detect_component_changes init_state components)
           = map (\<lambda>c. ComponentEvent c ''Initial Status'') components"
    using assms by (intro detect_component_changes_initial) (simp_all add: init_state_def)
  ultimately show ?thesis using r by simp
qed

text \<open>The amended claim C3 at a payload of two components.\<close>

theorem replay_components_idempotent_witness:
  "distinct (map comp_id [api_operational, chat_operational])
   \<and> snd (detect_component_changes init_state [api_operational, chat_operational])
       = [ComponentEvent api_operational ''Initial Status'',
          ComponentEvent chat_operational ''Initial Status'']
   \<and> snd (detect_component_changes
            (fst (detect_component_changes init_state [api_operational, chat_operational]))
            [api_operational, chat_operational]) = []"
proof -
  have d: "distinct (map comp_id [api_operational, chat_operational])"
    by (simp add: api_operational_def chat_operational_def)
  from replay_components_idempotent[OF d, of init_state] d show ?thesis by simp
qed











text \<open>
  Claim C8, as stated, at a monitor that holds the validator \<^verbatim>\<open>v1\<close> for the summary
  endpoint and a 200 without an \<^verbatim>\<open>ETag\<close> header: the validator stored afterwards is still
  \<^verbatim>\<open>v1\<close>, and the next request carries \<^verbatim>\<open>If-None-Match: v1\<close>.
\<close>

theorem missing_etag_keeps_validator_counterexample:
  "etags state_with_validator SUMMARY_ENDPOINT = Some ''v1''
   \<and> fetch_with_etag net_no_etag state_with_validator SUMMARY_ENDPOINT
       = (JObj [(''components'', JArr [])], state_with_validator, [])
   \<and> etags (fst (snd (fetch_with_etag net_no_etag state_with_validator SUMMARY_ENDPOINT)))
         SUMMARY_ENDPOINT = Some ''v1''
   \<and> request_headers
         (fst (snd (fetch_with_etag net_no_etag state_with_validator SUMMARY_ENDPOINT)))
         SUMMARY_ENDPOINT = [(''If-None-Match'', ''v1'')]"
  by (simp add: fetch_with_etag_def net_no_etag_def store_etag_def request_headers_def
                state_with_validator_def)

text \<open>
  Claim C8, amended. A 200 response with no \<^verbatim>\<open>ETag\<close> header, or with an empty one, leaves
  the memory as it was: the validator stored for the endpoint is kept, and the next request
  to the endpoint has the headers this one had. A 200 response with a header that is not
  empty stores it without the double quotes at its ends, and the next request carries it
  as \<^verbatim>\<open>If-None-Match\<close>.
\<close>

theorem validator_after_200:
  assumes "net (BASE_URL @ ep) (request_headers st ep) = Got r" and "resp_status r = 200"
  shows "(resp_etag r = None \<or> resp_etag r = Some [] \<longrightarrow>
            fst (snd (fetch_with_etag net st ep)) = st
            \<and> request_headers (fst (snd (fetch_with_etag net st ep))) ep = request_headers st ep)
         \<and> (\<forall>e. resp_etag r = Some e \<longrightarrow> e \<noteq> [] \<longrightarrow>
              etags (fst (snd (fetch_with_etag net st ep))) ep = Some (strip_quotes e)
              \<and> request_headers (fst (snd (fetch_with_etag net st ep))) ep
                  = [(''If-None-Match'', strip_quotes e)])"
proof -
  have "fst (snd (fetch_with_etag net st ep)) = store_etag st ep (resp_etag r)"
    using assms by (simp add: fetch_with_etag_def Let_def split: body.splits)
  then show ?thesis
    by (auto simp: store_etag_def request_headers_def)
qed

text \<open>The amended claim C8 at a 200 without the header and at a 200 with the header
  \<^verbatim>\<open>"v2"\<close>, from a memory that holds \<^verbatim>\<open>v1\<close>.\<close>

theorem validator_after_200_witness:
  "fst (snd (fetch_with_etag net_no_etag state_with_validator SUMMARY_ENDPOINT))
     = state_with_validator
   \<and> request_headers (fst (snd (fetch_with_etag net_no_etag state_with_validator SUMMARY_ENDPOINT)))
       SUMMARY_ENDPOINT = [(''If-None-Match'', ''v1'')]
   \<and> request_headers (fst (snd (fetch_with_etag net_quoted_etag state_with_validator SUMMARY_ENDPOINT)))
       SUMMARY_ENDPOINT = [(''If-None-Match'', ''v2'')]"
proof -
  let ?u = "BASE_URL @ SUMMARY_ENDPOINT"
  let ?h = "request_headers state_with_validator SUMMARY_ENDPOINT"
  have a: "net_no_etag ?u ?h = Got (Response 200 None (Decoded (JObj [(''components'', JArr [])])))"
    by (simp only: net_no_etag_def)
  have b: "net_quoted_etag ?u ?h = Got (Response 200 (Some [CHR 0x22, CHR ''v'', CHR ''2'', CHR 0x22])
            (Decoded (JObj [(''components'', JArr [])])))"
    by (simp only: net_quoted_etag_def)
  have h: "?h = [(''If-None-Match'', ''v1'')]"
    by (simp add: request_headers_def state_with_validator_def)
  from validator_after_200[of net_no_etag SUMMARY_ENDPOINT state_with_validator, OF a] h
  have r1: "fst (snd (fetch_with_etag net_no_etag state_with_validator SUMMARY_ENDPOINT))
              = state_with_validator
            \<and> request_headers (fst (snd (fetch_with_etag net_no_etag state_with_validator SUMMARY_ENDPOINT)))
                SUMMARY_ENDPOINT = [(''If-None-Match'', ''v1'')]"
    by simp
  from validator_after_200[of net_quoted_etag SUMMARY_ENDPOINT state_with_validator, OF b]
  have r2: "request_headers (fst (snd (fetch_with_etag net_quoted_etag state_with_validator SUMMARY_ENDPOINT)))
       SUMMARY_ENDPOINT = [(''If-None-Match'', ''v2'')]"
    by (simp add: strip_quotes_def)
  from r1 r2 show ?thesis by (intro conjI) (elim conjE, assumption)+
qed

text \<open>
  Claim C9. The events of one poll cycle are the component events followed by the incident
  events. The component events follow the order of the components parsed from the summary
  payload of the cycle (they are a subsequence of that list), and the incident events
  follow the order in which the nested loops visit the (incident, update) pairs of the
  incidents parsed from the incidents payload: incidents in input order and, within each,
  updates in input order. An endpoint whose payload is not fetched, not truthy or not
  parsed contributes no event.
\<close>

theorem cycle_event_order:
  "\<exists>comps incs ces ies.
      emitted (check_status_updates net st) = ces @ ies
    \<and> (comps = [] \<or> parse_components (fst (fetch_with_etag net st SUMMARY_ENDPOINT)) = Inr comps)
    \<and> (incs = [] \<or> parse_incidents (fst (fetch_with_etag net st INCIDENTS_ENDPOINT)) = Inr incs)
    \<and> event_updates ces = [] \<and> subseq (event_components ces) comps
    \<and> event_components ies = [] \<and> subseq (event_updates ies) (update_pairs incs)"
proof -
  let ?r1 = "check_summary net st"
  let ?st1 = "final_state ?r1"
  from check_summary_order[of net st] obtain comps where
    c: "comps = [] \<or> parse_components (fst (fetch_with_etag net st SUMMARY_ENDPOINT)) = Inr comps"
       "event_updates (emitted ?r1) = []" "subseq (event_components (emitted ?r1)) comps"
    by blast
  show ?thesis
  proof (cases "raised ?r1")
    case (Some e)
    then have "emitted (check_status_updates net st) = emitted ?r1 @ []"
      by (simp add: check_status_updates_def and_then_run_def)
    with c show ?thesis
      by (intro exI[of _ comps] exI[of _ "[]"] exI[of _ "emitted ?r1"])
         (simp add: update_pairs_def)
  next
    case None
    let ?r2 = "check_incidents net ?st1"
    from check_summary_frame[of net st]
    have "fst (fetch_with_etag net ?st1 INCIDENTS_ENDPOINT)
            = fst (fetch_with_etag net st INCIDENTS_ENDPOINT)"
      by (intro fetch_value_cong[THEN conjunct1]) simp
    with check_incidents_order[of net ?st1] obtain incs where
      i: "incs = [] \<or> parse_incidents (fst (fetch_with_etag net st INCIDENTS_ENDPOINT)) = Inr incs"
         "event_components (emitted ?r2) = []"
         "subseq (event_updates (emitted ?r2)) (update_pairs incs)"
      by auto
    from None have "emitted (check_status_updates net st) = emitted ?r1 @ emitted ?r2"
      by (simp add: check_status_updates_def and_then_run_def Let_def)
    with c i show ?thesis
      by (intro exI[of _ comps] exI[of _ incs] exI[of _ "emitted ?r1"] exI[of _ "emitted ?r2"])
         simp
  qed
qed

text \<open>
  Claim C10. When a 200 decodes to a value that is not truthy (\<^verbatim>\<open>{}\<close>, \<^verbatim>\<open>[]\<close>, \<^verbatim>\<open>null\<close>,
  \<^verbatim>\<open>0\<close>, \<^verbatim>\<open>false\<close>, the empty string), \<^verbatim>\<open>check_status_updates\<close> skips the endpoint as
  it does after \<^verbatim>\<open>None\<close>: the block does not parse (it raises nothing), emits no event and
  leaves the component signatures and the seen update ids as they were; the validator of the
  response is stored. With such a summary the cycle is the incidents block on that memory;
  with such an incidents payload the cycle emits and raises what the summary block does.
\<close>

theorem falsy_payload_skipped:
  assumes "net (BASE_URL @ ep) (request_headers st ep) = Got r" and "resp_status r = 200"
    and "resp_body r = Decoded d" and "\<not> truthy d"
  shows "fetch_with_etag net st ep = (d, store_etag st ep (resp_etag r), [])
     \<and> (ep = SUMMARY_ENDPOINT \<longrightarrow>
           check_summary net st
             = \<lparr>final_state = store_etag st SUMMARY_ENDPOINT (resp_etag r), emitted = [],
                logged = [], raised = None\<rparr>
         \<and> check_status_updates net st
             = check_incidents net (store_etag st SUMMARY_ENDPOINT (resp_etag r))
         \<and> last_known_state (final_state (check_status_updates net st)) = last_known_state st
         \<and> processed_incident_updates (final_state (check_summary net st))
             = processed_incident_updates st
         \<and> event_components (emitted (check_status_updates net st)) = [])
     \<and> (ep = INCIDENTS_ENDPOINT \<longrightarrow>
           check_incidents net st
             = \<lparr>final_state = store_etag st INCIDENTS_ENDPOINT (resp_etag r), emitted = [],
                logged = [], raised = None\<rparr>
         \<and> emitted (check_status_updates net st) = emitted (check_summary net st)
         \<and> raised (check_status_updates net st) = raised (check_summary net st)
         \<and> last_known_state (final_state (check_status_updates net st))
             = last_known_state (final_state (check_summary net st))
         \<and> processed_incident_updates (final_state (check_status_updates net st))
             = processed_incident_updates st
         \<and> event_updates (emitted (check_status_updates net st)) = [])"
proof -
  note f = fetch_decoded[of net ep st r d, OF assms(1,2,3)]
  have s: "check_summary net st
             = \<lparr>final_state = store_etag st SUMMARY_ENDPOINT (resp_etag r), emitted = [],
                logged = [], raised = None\<rparr>" if "ep = SUMMARY_ENDPOINT"
    using f that assms(4) by (simp add: check_summary_def)
  have s2: "check_status_updates net st
             = check_incidents net (store_etag st SUMMARY_ENDPOINT (resp_etag r))"
    if "ep = SUMMARY_ENDPOINT"
    using s[OF that] by (simp add: check_status_updates_def and_then_run_after_silent)
  have i: "check_incidents net st
             = \<lparr>final_state = store_etag st INCIDENTS_ENDPOINT (resp_etag r), emitted = [],
                logged = [], raised = None\<rparr>" if "ep = INCIDENTS_ENDPOINT"
    using f that assms(4) by (simp add: check_incidents_def)
  have i2: "emitted (check_status_updates net st) = emitted (check_summary net st)
         \<and> raised (check_status_updates net st) = raised (check_summary net st)
         \<and> last_known_state (final_state (check_status_updates net st))
             = last_known_state (final_state (check_summary net st))
         \<and> processed_incident_updates (final_state (check_status_updates net st))
             = processed_incident_updates (final_state (check_summary net st))"
    if e: "ep = INCIDENTS_ENDPOINT"
  proof -
    let ?st1 = "final_state (check_summary net st)"
    from assms e check_summary_headers[of net st]
    have "net (BASE_URL @ INCIDENTS_ENDPOINT) (request_headers ?st1 INCIDENTS_ENDPOINT) = Got r"
      by simp
    from fetch_decoded[of net INCIDENTS_ENDPOINT ?st1 r d, OF this assms(2,3)] assms(4)
    have "check_incidents net ?st1
            = \<lparr>final_state = store_etag ?st1 INCIDENTS_ENDPOINT (resp_etag r), emitted = [],
               logged = [], raised = None\<rparr>"
      by (simp add: check_incidents_def)
    then show ?thesis
      by (simp add: check_status_updates_def and_then_run_def Let_def store_etag_frame
               split: option.splits)
  qed
  from f s s2 i i2 check_incidents_frame[of net "store_etag st SUMMARY_ENDPOINT (resp_etag r)"]
    check_summary_frame[of net st]
  show ?thesis by (simp add: store_etag_frame)
qed

text \<open>Claim C10 at the empty JSON object for the summary and a fresh incidents payload.\<close>

theorem falsy_payload_skipped_witness:
  "check_summary net_summary_empty_object init_state
     = \<lparr>final_state = init_state, emitted = [], logged = [], raised = None\<rparr>
   \<and> check_status_updates net_summary_empty_object init_state
     = check_incidents net_summary_empty_object init_state
   \<and> last_known_state (final_state (check_status_updates net_summary_empty_object init_state))
     = last_known_state init_state
   \<and> emitted (check_incidents net_summary_empty_object init_state)
     = [IncidentEvent outage outage_update]"
proof -
  have a: "net_summary_empty_object (BASE_URL @ SUMMARY_ENDPOINT)
             (request_headers init_state SUMMARY_ENDPOINT)
           = Got (Response 200 None (Decoded (JObj [])))"
    by (simp add: net_summary_empty_object_def)
  have b: "resp_status (Response 200 None (Decoded (JObj []))) = 200"
    and c: "resp_body (Response 200 None (Decoded (JObj []))) = Decoded (JObj [])"
    and d: "\<not> truthy (JObj [])" by simp_all
  have e: "net_summary_empty_object (BASE_URL @ INCIDENTS_ENDPOINT)
             (request_headers init_state INCIDENTS_ENDPOINT)
           = Got (Response 200 None (Decoded incidents_payload))"
    using summary_url by (simp add: net_summary_empty_object_def)
  have g: "''u1'' \<notin> processed_incident_updates init_state"
    by (simp add: init_state_def)
  note t = falsy_payload_skipped[of net_summary_empty_object SUMMARY_ENDPOINT init_state
             "Response 200 None (Decoded (JObj []))" "JObj []", OF a b c d]
  from t check_incidents_fresh_example[of net_summary_empty_object init_state, OF e g]
  show ?thesis by (simp add: store_etag_def)
qed

end
